theory Spec2Isabelle
  imports Complex_Main "HOL-Library.Multiset"
begin

section \<open>Vocabulary analysis (vocabulary\_analysis.py)\<close>

text \<open>
  The analysis engine of the repository is a set of Python functions over a text. They are
  embedded here one by one, under their own names. Conventions of the embedding:
  \<^item> a Python \<open>str\<close> is a \<open>string\<close>; the character classes of the regular expressions
    (\<open>\w\<close>, \<open>\s\<close>) and \<open>str.lower\<close> are written out for ASCII, so the embedding describes
    the functions on ASCII text;
  \<^item> a Python \<open>float\<close> is a \<open>real\<close>: the formulas are the exact ones, without the rounding
    error of binary floating point;
  \<^item> an exception is a value: every function that can raise returns \<open>py_error + 'a\<close>;
  \<^item> the random source of \<open>random.sample\<close> is an explicit argument.
\<close>

subsection \<open>Exceptions\<close>

datatype py_error = IndexError | ZeroDivisionError | ValueError

subsection \<open>Characters and string primitives\<close>

definition ascii_uppercase :: string where
  "ascii_uppercase = ''ABCDEFGHIJKLMNOPQRSTUVWXYZ''"

definition ascii_lowercase :: string where
  "ascii_lowercase = ''abcdefghijklmnopqrstuvwxyz''"

definition digits :: string where
  "digits = ''0123456789''"

definition lower_char :: "char \<Rightarrow> char" where
  "lower_char c =
     (case map_of (zip ascii_uppercase ascii_lowercase) c of Some d \<Rightarrow> d | None \<Rightarrow> c)"

text \<open>\<open>str.lower()\<close>\<close>

definition lower :: "string \<Rightarrow> string" where
  "lower s = map lower_char s"

text \<open>The class \<open>\w\<close>: letters, digits and the underscore.\<close>

definition is_word_char :: "char \<Rightarrow> bool" where
  "is_word_char c \<longleftrightarrow> c \<in> set (ascii_lowercase @ ascii_uppercase @ digits @ ''_'')"

text \<open>
  The class \<open>\s\<close> of a \<open>str\<close> pattern: space, \<open>\t \n \v \f \r\<close> and the four
  separators \<open>0x1C\<close> to \<open>0x1F\<close>.
\<close>

definition is_space :: "char \<Rightarrow> bool" where
  "is_space c \<longleftrightarrow>
     c \<in> set [CHR '' '', CHR 0x09, CHR 0x0A, CHR 0x0B, CHR 0x0C, CHR 0x0D,
              CHR 0x1C, CHR 0x1D, CHR 0x1E, CHR 0x1F]"

text \<open>\<open>s.startswith(p)\<close> and \<open>s.endswith(p)\<close>\<close>

definition startswith :: "string \<Rightarrow> string \<Rightarrow> bool" where
  "startswith s p \<longleftrightarrow> take (length p) s = p"

definition endswith :: "string \<Rightarrow> string \<Rightarrow> bool" where
  "endswith s p \<longleftrightarrow> length p \<le> length s \<and> drop (length s - length p) s = p"

text \<open>\<open>p in s\<close> for two strings: \<open>p\<close> occurs in \<open>s\<close> as a contiguous substring.\<close>

fun str_contains :: "string \<Rightarrow> string \<Rightarrow> bool" where
  "str_contains [] p = (p = [])"
| "str_contains (c # cs) p = (startswith (c # cs) p \<or> str_contains cs p)"

text \<open>\<open>' '.join(ws)\<close>\<close>

fun join_space :: "string list \<Rightarrow> string" where
  "join_space [] = []"
| "join_space [w] = w"
| "join_space (w # ws) = w @ '' '' @ join_space ws"

subsection \<open>Tokenizer and sentence splitter\<close>

text \<open>
  \<open>re.findall(r'\b\w+\b', s)\<close>: \<open>\w+\<close> is greedy and both ends must be word boundaries,
  so the matches are the maximal runs of word characters, from left to right.
  \<open>cur\<close> is the run being read.
\<close>

fun word_runs :: "string \<Rightarrow> string \<Rightarrow> string list" where
  "word_runs cur [] = (if cur = [] then [] else [cur])"
| "word_runs cur (c # cs) =
     (if is_word_char c then word_runs (cur @ [c]) cs
      else if cur = [] then word_runs [] cs
      else cur # word_runs [] cs)"

definition tokenize_text :: "string \<Rightarrow> string list" where
  "tokenize_text text = word_runs [] (lower text)"

text \<open>
  \<open>re.split(r'(?<=[.!?])\s+', text)\<close>: a separator is a maximal run of white space
  that starts right after one of \<open>. ! ?\<close>. \<open>prev\<close> is the character before the rest
  of the input, \<open>cur\<close> the piece being read; the last piece is always returned, empty or not.
\<close>

function split_sentences :: "char option \<Rightarrow> string \<Rightarrow> string \<Rightarrow> string list" where
  "split_sentences prev cur [] = [cur]"
| "split_sentences prev cur (c # cs) =
     (if is_space c \<and> prev \<in> {Some CHR ''.'', Some CHR ''!'', Some CHR ''?''}
      then cur # split_sentences (Some c) [] (dropWhile is_space cs)
      else split_sentences (Some c) (cur @ [c]) cs)"
  by pat_completeness auto
termination
  by (relation "measure (\<lambda>(prev, cur, s). length s)")
     (auto simp: length_dropWhile_le le_imp_less_Suc)

definition sentence_tokenize :: "string \<Rightarrow> string list" where
  "sentence_tokenize text = split_sentences None [] text"

subsection \<open>Syllable estimator\<close>

definition vowels :: string where
  "vowels = ''aeiouy''"

text \<open>
  \<open>word[0]\<close> raises \<open>IndexError\<close> on the empty word. The loop over
  \<open>range(1, len(word))\<close> adds one for every index that starts a vowel group.
\<close>

definition count_syllables :: "string \<Rightarrow> py_error + int" where
  "count_syllables word0 =
     (let word = lower word0 in
      if word = [] then Inl IndexError
      else
        let count = (if word ! 0 \<in> set vowels then 1 else 0);
            count = count + int (length (filter
                      (\<lambda>index. word ! index \<in> set vowels \<and> word ! (index - 1) \<notin> set vowels)
                      [1..<length word]));
            count = (if endswith word ''e'' then count - 1 else count);
            count = (if endswith word ''le'' then count + 1 else count);
            count = (if count = 0 then count + 1 else count)
        in Inr count)"

text \<open>
  A comprehension that calls a function which may raise: the results in order, or the
  first exception.
\<close>

fun map_err :: "('a \<Rightarrow> py_error + 'b) \<Rightarrow> 'a list \<Rightarrow> py_error + 'b list" where
  "map_err f [] = Inr []"
| "map_err f (x # xs) =
     (case f x of
        Inl e \<Rightarrow> Inl e
      | Inr y \<Rightarrow> (case map_err f xs of Inl e \<Rightarrow> Inl e | Inr ys \<Rightarrow> Inr (y # ys)))"

text \<open>Sequencing of two computations that may raise.\<close>

definition err_bind :: "py_error + 'a \<Rightarrow> ('a \<Rightarrow> py_error + 'b) \<Rightarrow> py_error + 'b" where
  "err_bind m f = (case m of Inl e \<Rightarrow> Inl e | Inr x \<Rightarrow> f x)"

subsection \<open>Readability calculators\<close>

text \<open>\<open>round(x, 1)\<close>: to one decimal, a tie going to the even neighbour.\<close>

definition round_half_even :: "real \<Rightarrow> int" where
  "round_half_even x =
     (let f = \<lfloor>x\<rfloor>; d = x - of_int f
      in if d < 1 / 2 then f else if 1 / 2 < d then f + 1 else if even f then f else f + 1)"

definition py_round1 :: "real \<Rightarrow> real" where
  "py_round1 x = of_int (round_half_even (x * 10)) / 10"

definition calculate_flesch_kincaid_grade :: "string \<Rightarrow> py_error + real" where
  "calculate_flesch_kincaid_grade text =
     (let sentences = length (sentence_tokenize text);
          words = length (tokenize_text text)
      in err_bind (map_err count_syllables (tokenize_text text)) (\<lambda>ns.
           let syllables = sum_list ns
           in if sentences = 0 \<or> words = 0 then Inr 0
              else Inr (py_round1 (0.39 * (real words / real sentences)
                                   + 11.8 * (of_int syllables / real words) - 15.59))))"

definition calculate_flesch_reading_ease :: "string \<Rightarrow> py_error + real" where
  "calculate_flesch_reading_ease text =
     (let sentences = length (sentence_tokenize text);
          words = length (tokenize_text text)
      in err_bind (map_err count_syllables (tokenize_text text)) (\<lambda>ns.
           let syllables = sum_list ns
           in if sentences = 0 \<or> words = 0 then Inr 0
              else Inr (py_round1 (206.835 - 1.015 * (real words / real sentences)
                                   - 84.6 * (of_int syllables / real words)))))"

definition calculate_gunning_fog_index :: "string \<Rightarrow> py_error + real" where
  "calculate_gunning_fog_index text =
     (let sentences = length (sentence_tokenize text);
          words = tokenize_text text
      in err_bind (map_err count_syllables words) (\<lambda>ns.
           let complex_words = map fst (filter (\<lambda>(word, n). 2 < n) (zip words ns))
           in if sentences = 0 \<or> length words = 0 then Inr 0
              else Inr (py_round1 (0.4 * ((real (length words) / real sentences)
                          + 100 * (real (length complex_words) / real (length words)))))))"

definition calculate_smog_index :: "string \<Rightarrow> py_error + real" where
  "calculate_smog_index text =
     (let sentences = sentence_tokenize text
      in err_bind (map_err count_syllables (tokenize_text text)) (\<lambda>ns.
           let polysyllables = map fst (filter (\<lambda>(word, n). 3 \<le> n) (zip (tokenize_text text) ns))
           in if length sentences < 30 then Inr 0
              else Inr (py_round1 (1.0430 * sqrt (real (length polysyllables)
                                                   * (30 / real (length sentences))) + 3.1291))))"

subsection \<open>Lexical diversity\<close>

text \<open>\<open>len(set(words))\<close> is the number of distinct words.\<close>

definition calculate_ttr :: "string \<Rightarrow> py_error + real" where
  "calculate_ttr text =
     (let words = tokenize_text text
      in if length words = 0 then Inl ZeroDivisionError
         else Inr (real (length (remdups words)) / real (length words)))"

text \<open>
  One turn of the loop of \<open>calculate_mtld\<close> on the state
  \<open>(factor_count, factor_lengths, current_factor)\<close>.
\<close>

definition mtld_step ::
  "real \<Rightarrow> string \<Rightarrow> nat \<times> nat list \<times> string list \<Rightarrow> nat \<times> nat list \<times> string list" where
  "mtld_step threshold word st =
     (case st of (factor_count, factor_lengths, current_factor) \<Rightarrow>
        let current_factor = current_factor @ [word];
            ttr = real (length (remdups current_factor)) / real (length current_factor)
        in if ttr \<le> threshold
           then (factor_count + 1, factor_lengths @ [length current_factor], [])
           else (factor_count, factor_lengths, current_factor))"

definition calculate_mtld :: "string \<Rightarrow> real \<Rightarrow> real" where
  "calculate_mtld text threshold =
     (let words = tokenize_text text
      in case fold (mtld_step threshold) words (0, [], []) of
           (factor_count, factor_lengths, current_factor) \<Rightarrow>
             if factor_count = 0 then real (length words)
             else real (sum_list factor_lengths) / real factor_count)"

subsection \<open>Syntactic metrics\<close>

text \<open>\<open>x if sentences else 0\<close>: the list is tested for emptiness first.\<close>

definition calculate_avg_sentence_length :: "string \<Rightarrow> real" where
  "calculate_avg_sentence_length text =
     (let sentences = sentence_tokenize text;
          words = tokenize_text text
      in if sentences \<noteq> [] then real (length words) / real (length sentences) else 0)"

definition clause_markers :: "string list" where
  "clause_markers = [''and'', ''but'', ''because'', ''if'', ''when'', ''while'', ''although'',
                     ''as'', ''since'', ''unless'', ''though'', ''whereas'', ''whether'']"

definition calculate_clause_density :: "string \<Rightarrow> real" where
  "calculate_clause_density text =
     (let sentences = sentence_tokenize text;
          clause_count = sum_list (map
            (\<lambda>sentence. length (filter (\<lambda>marker. str_contains (lower sentence) marker)
                                         clause_markers) + 1)
            sentences)
      in if sentences \<noteq> [] then real clause_count / real (length sentences) else 0)"

subsection \<open>Part-of-speech tagger\<close>

text \<open>The \<open>if\<close>/\<open>elif\<close> chain in the loop of \<open>simple_pos_tagger\<close>, for one word.\<close>

definition pos_tag :: "string \<Rightarrow> string" where
  "pos_tag word =
     (if word \<in> set [''the'', ''a'', ''an''] then ''DT''
      else if word \<in> set [''is'', ''am'', ''are'', ''was'', ''were''] then ''VB''
      else if endswith word ''ly'' then ''RB''
      else if endswith word ''ed'' then ''VBD''
      else if endswith word ''ing'' then ''VBG''
      else if word \<in> set [''i'', ''you'', ''he'', ''she'', ''it'', ''we'', ''they''] then ''PRP''
      else ''NN'')"

definition simple_pos_tagger :: "string \<Rightarrow> (string \<times> string) list" where
  "simple_pos_tagger text = map (\<lambda>word. (word, pos_tag word)) (tokenize_text text)"

text \<open>
  \<open>collections.Counter\<close>: the keys in the order of their first occurrence, each with
  its count.
\<close>

fun counter_add :: "'a \<Rightarrow> ('a \<times> nat) list \<Rightarrow> ('a \<times> nat) list" where
  "counter_add k [] = [(k, 1)]"
| "counter_add k ((k', n) # kvs) =
     (if k = k' then (k', Suc n) # kvs else (k', n) # counter_add k kvs)"

definition Counter :: "'a list \<Rightarrow> ('a \<times> nat) list" where
  "Counter xs = fold counter_add xs []"

definition counter_get :: "('a \<times> nat) list \<Rightarrow> 'a \<Rightarrow> nat \<Rightarrow> nat" where
  "counter_get c k d = (case map_of c k of Some n \<Rightarrow> n | None \<Rightarrow> d)"

definition counter_values :: "('a \<times> nat) list \<Rightarrow> nat list" where
  "counter_values c = map snd c"

text \<open>\<open>most_common(n)\<close>: by decreasing count, equal counts in the order of the counter.\<close>

definition most_common :: "nat \<Rightarrow> ('a \<times> nat) list \<Rightarrow> ('a \<times> nat) list" where
  "most_common n c = take n (sort_key (\<lambda>(k, v). - int v) c)"

definition calculate_pos_distribution :: "string \<Rightarrow> (string \<times> nat) list" where
  "calculate_pos_distribution text =
     (let pos_tags = simple_pos_tagger text in Counter (map snd pos_tags))"

subsection \<open>N-gram counter\<close>

definition calculate_ngram_frequency :: "string \<Rightarrow> nat \<Rightarrow> (string list \<times> nat) list" where
  "calculate_ngram_frequency text n =
     (let words = tokenize_text text;
          ngrams = map (\<lambda>i. take n (drop i words)) [0..<length words + 1 - n]
      in Counter ngrams)"

subsection \<open>Cloze generator\<close>

text \<open>
  \<open>random.sample(population, k)\<close> of the standard library. It raises \<open>ValueError\<close> when
  \<open>k\<close> is negative or larger than the population; otherwise it copies the population into
  a pool and takes \<open>k\<close> elements out of it, the \<open>i\<close>-th one at a random position below
  \<open>n - i\<close>, moving the last live element of the pool into the hole. \<open>rng i\<close> is the
  \<open>i\<close>-th number of the random source, brought into range by \<open>mod\<close>. (On a large
  population the library draws positions and rejects the ones already taken; the results
  are the same selections of \<open>k\<close> positions of the population, each taken once.)
\<close>

primrec sample_loop :: "(nat \<Rightarrow> nat) \<Rightarrow> 'a list \<Rightarrow> nat \<Rightarrow> nat \<Rightarrow> nat \<Rightarrow> 'a list" where
  "sample_loop rng pool n i 0 = []"
| "sample_loop rng pool n i (Suc r) =
     (let j = rng i mod (n - i)
      in pool ! j # sample_loop rng (pool[j := pool ! (n - i - 1)]) n (Suc i) r)"

definition random_sample :: "(nat \<Rightarrow> nat) \<Rightarrow> 'a list \<Rightarrow> int \<Rightarrow> py_error + 'a list" where
  "random_sample rng population k =
     (let n = length population
      in if \<not> (0 \<le> k \<and> k \<le> int n) then Inl ValueError
         else Inr (sample_loop rng population n 0 (nat k)))"


text \<open>The list \<open>content_words\<close> of \<open>generate_cloze_test\<close>: one entry per content token.\<close>

definition content_words :: "string \<Rightarrow> string list" where
  "content_words text =
     map fst (filter (\<lambda>(word, tag). list_ex (startswith tag) [''NN'', ''VB'', ''JJ'', ''RB''])
                     (simple_pos_tagger text))"

definition generate_cloze_test ::
  "(nat \<Rightarrow> nat) \<Rightarrow> string \<Rightarrow> int \<Rightarrow> py_error + (string \<times> string list)" where
  "generate_cloze_test rng text num_blanks =
     (let words = tokenize_text text;
          num_blanks = (if int (length (content_words text)) < num_blanks
                        then int (length (content_words text)) else num_blanks)
      in err_bind (random_sample rng (content_words text) num_blanks) (\<lambda>words_to_blank.
           let cloze_text = join_space
                 (map (\<lambda>word. if word \<in> set words_to_blank then ''_____'' else word) words)
           in Inr (cloze_text, words_to_blank)))"

subsection \<open>Level classifier and the analysis function\<close>

record analysis =
  overall_level :: string
  flesch_kincaid_grade :: real
  flesch_reading_ease :: real
  gunning_fog_index :: real
  smog_index :: real
  type_token_ratio :: real
  mtld :: real
  avg_sentence_length :: real
  clause_density :: real
  pos_distribution :: "(string \<times> nat) list"
  top_bigrams :: "(string list \<times> nat) list"
  cloze_test :: string
  blanked_words :: "string list"
  complexity_score :: real

text \<open>The \<open>if\<close>/\<open>elif\<close> chain of \<open>analyze_vocabulary\<close> that sets \<open>overall_level\<close>.\<close>

definition level_of_score :: "real \<Rightarrow> string" where
  "level_of_score score =
     (if score < 0.35 then ''A1''
      else if score < 0.55 then ''A2''
      else if score < 0.75 then ''B1''
      else ''B2'')"

text \<open>\<open>a / b\<close> on numbers: \<open>ZeroDivisionError\<close> when \<open>b\<close> is zero.\<close>

definition py_div :: "real \<Rightarrow> real \<Rightarrow> py_error + real" where
  "py_div a b = (if b = 0 then Inl ZeroDivisionError else Inr (a / b))"

text \<open>
  The calculators are called in the order of the source, so the first exception is the one
  that leaves the function. \<open>generate_cloze_test\<close> is called with its default of 5 blanks,
  \<open>calculate_mtld\<close> with its default threshold.
\<close>

definition analyze_vocabulary :: "(nat \<Rightarrow> nat) \<Rightarrow> string \<Rightarrow> py_error + analysis" where
  "analyze_vocabulary rng text =
     err_bind (calculate_flesch_kincaid_grade text) (\<lambda>fk_grade.
     err_bind (calculate_flesch_reading_ease text) (\<lambda>flesch_ease.
     err_bind (calculate_gunning_fog_index text) (\<lambda>gunning_fog.
     err_bind (calculate_smog_index text) (\<lambda>smog.
     err_bind (calculate_ttr text) (\<lambda>ttr.
     let mtld_v = calculate_mtld text 0.72;
         avg_len = calculate_avg_sentence_length text;
         clause_dens = calculate_clause_density text;
         pos_dist = calculate_pos_distribution text;
         bigram_freq = calculate_ngram_frequency text 2
     in
     err_bind (generate_cloze_test rng text 5) (\<lambda>(cloze, blanked).
     let readability_score =
           (fk_grade / 12 + (100 - flesch_ease) / 100 + gunning_fog / 18 + smog / 18) / 4
     in
     err_bind (py_div (real (counter_get pos_dist ''VB'' 0))
                      (real (length (tokenize_text text)))) (\<lambda>vb_share.
     err_bind (py_div (real (counter_get pos_dist ''JJ'' 0))
                      (real (length (tokenize_text text)))) (\<lambda>jj_share.
     let score =
           readability_score * 0.4
           + (1 - ttr) * 0.2
           + min (avg_len / 20) 1 * 0.2
           + min (clause_dens / 3) 1 * 0.1
           + vb_share * 0.05
           + jj_share * 0.05
     in Inr \<lparr> overall_level = level_of_score score,
              flesch_kincaid_grade = fk_grade,
              flesch_reading_ease = flesch_ease,
              gunning_fog_index = gunning_fog,
              smog_index = smog,
              type_token_ratio = ttr,
              mtld = mtld_v,
              avg_sentence_length = avg_len,
              clause_density = clause_dens,
              pos_distribution = pos_dist,
              top_bigrams = most_common 10 bigram_freq,
              cloze_test = cloze,
              blanked_words = blanked,
              complexity_score = score \<rparr>))))))))"

subsection \<open>Test inputs\<close>

text \<open>A random source whose every number is 0: it always takes the first element of the pool.\<close>

definition rng_zero :: "nat \<Rightarrow> nat" where
  "rng_zero i = 0"

text \<open>A text of thirty sentences without a word: thirty full stops, separated by spaces.\<close>

definition thirty_stops :: string where
  "thirty_stops = concat (replicate 29 ''. '') @ ''.''"

section \<open>Properties\<close>

subsection \<open>Tokens are never empty, the sentence list is never empty\<close>

lemma word_runs_nonempty: "w \<in> set (word_runs cur s) \<Longrightarrow> w \<noteq> []"
  by (induction s arbitrary: cur) (auto split: if_splits)

lemma tokenize_text_nonempty: "w \<in> set (tokenize_text text) \<Longrightarrow> w \<noteq> []"
  unfolding tokenize_text_def by (rule word_runs_nonempty)

lemma split_sentences_nonempty: "split_sentences prev cur s \<noteq> []"
  by (induction prev cur s rule: split_sentences.induct) auto

lemma vowel_groups_pos:
  "w \<noteq> [] \<Longrightarrow> last w \<in> V \<Longrightarrow>
   1 \<le> (if w ! 0 \<in> V then 1 else 0)
       + int (length (filter (\<lambda>i. w ! i \<in> V \<and> w ! (i - 1) \<notin> V) [1..<length w]))"
proof (induction w rule: rev_induct)
  case Nil
  then show ?case by simp
next
  case (snoc c xs)
  show ?case
  proof (cases "xs = []")
    case True
    with snoc.prems show ?thesis by simp
  next
    case False
    then have len: "1 \<le> length xs" by (cases xs) auto
    have upt: "[1..<length (xs @ [c])] = [1..<length xs] @ [length xs]"
      using len by simp
    have same: "filter (\<lambda>i. (xs @ [c]) ! i \<in> V \<and> (xs @ [c]) ! (i - 1) \<notin> V) [1..<length xs]
              = filter (\<lambda>i. xs ! i \<in> V \<and> xs ! (i - 1) \<notin> V) [1..<length xs]"
      by (rule filter_cong) (auto simp: nth_append)
    have hd0: "(xs @ [c]) ! 0 = xs ! 0"
      using False by (simp add: nth_append)
    show ?thesis
    proof (cases "last xs \<in> V")
      case True
      have "int (length (filter (\<lambda>i. xs ! i \<in> V \<and> xs ! (i - 1) \<notin> V) [1..<length xs]))
            \<le> int (length (filter (\<lambda>i. (xs @ [c]) ! i \<in> V \<and> (xs @ [c]) ! (i - 1) \<notin> V)
                               [1..<length (xs @ [c])]))"
        unfolding upt filter_append same by simp
      with snoc.IH[OF False True] show ?thesis
        unfolding hd0 by linarith
    next
      case lastn: False
      have "(xs @ [c]) ! (length xs - 1) = last xs"
        using False len by (simp add: nth_append last_conv_nth)
      moreover have "(xs @ [c]) ! length xs = c" by simp
      moreover have "c \<in> V" using snoc.prems by simp
      ultimately have "filter (\<lambda>i. (xs @ [c]) ! i \<in> V \<and> (xs @ [c]) ! (i - 1) \<notin> V) [length xs]
                       = [length xs]"
        using lastn by simp
      then have "1 \<le> int (length (filter (\<lambda>i. (xs @ [c]) ! i \<in> V \<and> (xs @ [c]) ! (i - 1) \<notin> V)
                               [1..<length (xs @ [c])]))"
        unfolding upt filter_append by simp
      then show ?thesis by (simp split: if_splits)
    qed
  qed
qed

lemma endswith_append: "endswith (p @ s) s"
  by (simp add: endswith_def)

lemma endswith_split: "endswith w s \<Longrightarrow> \<exists>p. w = p @ s"
proof -
  assume a: "endswith w s"
  have "w = take (length w - length s) w @ drop (length w - length s) w" by simp
  with a have "w = take (length w - length s) w @ s" by (simp add: endswith_def)
  then show ?thesis by blast
qed

lemma endswith_e_last: "endswith w ''e'' \<Longrightarrow> w \<noteq> [] \<and> last w = CHR ''e''"
  by (drule endswith_split) auto

lemma endswith_le_e: "endswith w ''le'' \<Longrightarrow> endswith w ''e''"
proof -
  assume "endswith w ''le''"
  then obtain p where "w = p @ ''le''" using endswith_split by blast
  then have "w = (p @ ''l'') @ ''e''" by simp
  then show ?thesis using endswith_append by metis
qed

lemma lower_nonempty: "lower w = [] \<longleftrightarrow> w = []"
  by (simp add: lower_def)

lemma count_syllables_ge1:
  assumes "word \<noteq> []"
  shows "\<exists>n. count_syllables word = Inr n \<and> 1 \<le> n"
proof -
  let ?w = "lower word"
  define c0 where "c0 = (if ?w ! 0 \<in> set vowels then 1 else 0)
             + int (length (filter (\<lambda>index. ?w ! index \<in> set vowels \<and> ?w ! (index - 1) \<notin> set vowels)
                       [1..<length ?w]))"
  have ne: "?w \<noteq> []" using assms by (simp add: lower_nonempty)
  have c0: "0 \<le> c0" unfolding c0_def by simp
  have cs: "count_syllables word =
        Inr (let count = c0;
                 count = (if endswith ?w ''e'' then count - 1 else count);
                 count = (if endswith ?w ''le'' then count + 1 else count)
             in if count = 0 then count + 1 else count)"
    unfolding count_syllables_def c0_def using ne by (simp add: Let_def)
  show ?thesis
  proof (cases "endswith ?w ''e''")
    case True
    then have "last ?w \<in> set vowels"
      using endswith_e_last[OF True] by (simp add: vowels_def)
    from vowel_groups_pos[OF ne this] have "1 \<le> c0" unfolding c0_def .
    then show ?thesis
      unfolding cs using True by (simp add: Let_def)
  next
    case False
    then have "\<not> endswith ?w ''le''" using endswith_le_e by blast
    then show ?thesis
      unfolding cs using False c0 by (simp add: Let_def)
  qed
qed

lemma map_err_total:
  "(\<And>x. x \<in> set xs \<Longrightarrow> \<exists>y. f x = Inr y) \<Longrightarrow> \<exists>ys. map_err f xs = Inr ys \<and> length ys = length xs"
proof (induction xs)
  case Nil
  then show ?case by simp
next
  case (Cons x xs)
  then obtain y where y: "f x = Inr y" by fastforce
  from Cons obtain ys where "map_err f xs = Inr ys" "length ys = length xs" by fastforce
  with y show ?case by simp
qed

lemma syllables_of_tokens:
  "\<exists>ns. map_err count_syllables (tokenize_text text) = Inr ns \<and> length ns = length (tokenize_text text)"
proof (rule map_err_total)
  fix x assume "x \<in> set (tokenize_text text)"
  then have "x \<noteq> []" by (rule tokenize_text_nonempty)
  from count_syllables_ge1[OF this] show "\<exists>y. count_syllables x = Inr y" by blast
qed

lemma sentence_tokenize_nonempty: "sentence_tokenize text \<noteq> []"
  unfolding sentence_tokenize_def by (rule split_sentences_nonempty)

lemma tokenize_text_empty: "tokenize_text [] = []"
  by (simp add: tokenize_text_def lower_def)

lemma sentence_tokenize_empty: "sentence_tokenize [] = [[]]"
  by (simp add: sentence_tokenize_def)

lemma readability_guard:
  assumes "map_err count_syllables (tokenize_text text) = Inr ns"
  shows "calculate_flesch_kincaid_grade text =
           Inr (if length (tokenize_text text) = 0 then 0
                else py_round1 (0.39 * (real (length (tokenize_text text))
                                        / real (length (sentence_tokenize text)))
                                + 11.8 * (of_int (sum_list ns) / real (length (tokenize_text text)))
                                - 15.59))"
    and "calculate_flesch_reading_ease text =
           Inr (if length (tokenize_text text) = 0 then 0
                else py_round1 (206.835 - 1.015 * (real (length (tokenize_text text))
                                                   / real (length (sentence_tokenize text)))
                                - 84.6 * (of_int (sum_list ns) / real (length (tokenize_text text)))))"
    and "calculate_gunning_fog_index text =
           Inr (if length (tokenize_text text) = 0 then 0
                else py_round1 (0.4 * ((real (length (tokenize_text text))
                                        / real (length (sentence_tokenize text)))
                     + 100 * (real (length (filter (\<lambda>(word, n). 2 < n) (zip (tokenize_text text) ns)))
                              / real (length (tokenize_text text))))))"
  using assms sentence_tokenize_nonempty[of "text"]
  by (simp_all add: calculate_flesch_kincaid_grade_def calculate_flesch_reading_ease_def
        calculate_gunning_fog_index_def err_bind_def Let_def)

subsection \<open>The syllable estimator\<close>

text \<open>
  Claim C9. For every non-empty word, \<open>count_syllables\<close> returns normally, and the count
  it returns is at least 1: a word that ends in \<open>e\<close> has a vowel group, so the silent-e rule
  never takes the count below 0, and a count of 0 is raised to 1 at the end.
\<close>

theorem count_syllables_at_least_one:
  "word \<noteq> [] \<Longrightarrow> \<exists>n. count_syllables word = Inr n \<and> 1 \<le> n"
  by (rule count_syllables_ge1)

theorem count_syllables_at_least_one_witness:
  "''table'' \<noteq> [] \<and> (\<exists>n. count_syllables ''table'' = Inr n \<and> 1 \<le> n)"
  using count_syllables_at_least_one [of "''table''"] by simp

subsection \<open>The sentence splitter\<close>

text \<open>
  Claim C10. For every input string \<open>sentence_tokenize\<close> returns a non-empty list; the empty
  text gives one empty sentence and a text of white space gives itself as one sentence.
  So the sentence count is never 0: \<open>calculate_avg_sentence_length\<close> and
  \<open>calculate_clause_density\<close> always take the branch that divides, by a divisor that is
  not 0, and the three readability calculators with a guard on the sentence count return
  0 exactly when there is no word.
\<close>

theorem sentence_tokenize_never_empty:
  "sentence_tokenize text \<noteq> [] \<and> 1 \<le> length (sentence_tokenize text)
   \<and> sentence_tokenize [] = [[]]
   \<and> sentence_tokenize ''  '' = [''  '']
   \<and> calculate_avg_sentence_length text
       = real (length (tokenize_text text)) / real (length (sentence_tokenize text))
   \<and> calculate_clause_density text
       = real (sum_list (map (\<lambda>sentence. length (filter (\<lambda>marker. str_contains (lower sentence) marker)
                                                         clause_markers) + 1)
                             (sentence_tokenize text)))
         / real (length (sentence_tokenize text))
   \<and> real (length (sentence_tokenize text)) \<noteq> 0
   \<and> (\<exists>ns. map_err count_syllables (tokenize_text text) = Inr ns
        \<and> calculate_flesch_kincaid_grade text =
           Inr (if length (tokenize_text text) = 0 then 0
                else py_round1 (0.39 * (real (length (tokenize_text text))
                                        / real (length (sentence_tokenize text)))
                                + 11.8 * (of_int (sum_list ns) / real (length (tokenize_text text)))
                                - 15.59))
        \<and> calculate_flesch_reading_ease text =
           Inr (if length (tokenize_text text) = 0 then 0
                else py_round1 (206.835 - 1.015 * (real (length (tokenize_text text))
                                                   / real (length (sentence_tokenize text)))
                                - 84.6 * (of_int (sum_list ns) / real (length (tokenize_text text)))))
        \<and> calculate_gunning_fog_index text =
           Inr (if length (tokenize_text text) = 0 then 0
                else py_round1 (0.4 * ((real (length (tokenize_text text))
                                        / real (length (sentence_tokenize text)))
                     + 100 * (real (length (filter (\<lambda>(word, n). 2 < n) (zip (tokenize_text text) ns)))
                              / real (length (tokenize_text text)))))))"
proof -
  have ne: "sentence_tokenize text \<noteq> []" by (rule sentence_tokenize_nonempty)
  then have len: "1 \<le> length (sentence_tokenize text)"
    by (cases "sentence_tokenize text") auto
  have ws: "sentence_tokenize ''  '' = [''  '']" by code_simp
  have avg: "calculate_avg_sentence_length text
       = real (length (tokenize_text text)) / real (length (sentence_tokenize text))"
    using ne by (simp add: calculate_avg_sentence_length_def Let_def)
  have cd: "calculate_clause_density text
       = real (sum_list (map (\<lambda>sentence. length (filter (\<lambda>marker. str_contains (lower sentence) marker)
                                                         clause_markers) + 1)
                             (sentence_tokenize text)))
         / real (length (sentence_tokenize text))"
    using ne by (simp add: calculate_clause_density_def Let_def)
  obtain ns where ns: "map_err count_syllables (tokenize_text text) = Inr ns"
    using syllables_of_tokens by blast
  note rg = readability_guard[OF ns]
  have nz: "real (length (sentence_tokenize text)) \<noteq> 0" using ne by simp
  show ?thesis
    by (intro conjI exI[of _ ns]) (rule ne len sentence_tokenize_empty ws avg cd nz ns rg)+
qed

subsection \<open>The empty text\<close>

text \<open>
  Claim C1 says that \<open>analyze_vocabulary("")\<close> returns a record of zeros without raising.
  The code raises instead: the four readability calculators return 0 on the empty text, and
  then \<open>calculate_ttr\<close> divides the number of distinct tokens by the number of tokens, which
  is 0, with no guard. The exception leaves \<open>analyze_vocabulary\<close>, whatever the random source.
\<close>

theorem analyze_vocabulary_empty_text:
  "calculate_ttr [] = Inl ZeroDivisionError \<and> analyze_vocabulary rng [] = Inl ZeroDivisionError"
  by (simp add: analyze_vocabulary_def calculate_flesch_kincaid_grade_def
        calculate_flesch_reading_ease_def calculate_gunning_fog_index_def calculate_smog_index_def
        calculate_ttr_def err_bind_def tokenize_text_empty sentence_tokenize_empty)

subsection \<open>The tag histogram\<close>

lemma sum_counter_add: "sum_list (map snd (counter_add k c)) = Suc (sum_list (map snd c))"
  by (induction c) auto

lemma sum_fold_counter_add:
  "sum_list (map snd (fold counter_add xs c)) = length xs + sum_list (map snd c)"
  by (induction xs arbitrary: c) (auto simp: sum_counter_add)

lemma sum_Counter: "sum_list (counter_values (Counter xs)) = length xs"
  by (simp add: counter_values_def Counter_def sum_fold_counter_add)

lemma map_of_counter_add:
  "map_of (counter_add k c) k' =
     (if k' = k then Some (Suc (case map_of c k of None \<Rightarrow> 0 | Some n \<Rightarrow> n)) else map_of c k')"
  by (induction c) auto

lemma counter_get_counter_add:
  "counter_get (counter_add k c) k' 0 = (if k' = k then Suc (counter_get c k 0) else counter_get c k' 0)"
  by (simp add: counter_get_def map_of_counter_add)

lemma counter_get_fold:
  "counter_get (fold counter_add xs c) k 0 = count_list xs k + counter_get c k 0"
  by (induction xs arbitrary: c) (auto simp: counter_get_counter_add)

lemma counter_get_Counter: "counter_get (Counter xs) k 0 = count_list xs k"
  by (simp add: Counter_def counter_get_fold) (simp add: counter_get_def)

lemma pos_tag_not_JJ: "pos_tag word \<noteq> ''JJ''"
  by (simp add: pos_tag_def)

lemma tags_of_text: "map snd (simple_pos_tagger text) = map pos_tag (tokenize_text text)"
  by (simp add: simple_pos_tagger_def comp_def)

lemma JJ_count_zero: "counter_get (calculate_pos_distribution text) ''JJ'' 0 = 0"
proof -
  have "''JJ'' \<notin> set (map pos_tag (tokenize_text text))"
  proof
    assume "''JJ'' \<in> set (map pos_tag (tokenize_text text))"
    then obtain w where "pos_tag w = ''JJ''" by auto
    then show False using pos_tag_not_JJ by blast
  qed
  then show ?thesis
    by (simp add: calculate_pos_distribution_def counter_get_Counter tags_of_text
          count_list_0_iff del: set_map)
qed

text \<open>
  Claim C2. For every input text the values of the histogram of
  \<open>calculate_pos_distribution\<close> sum to the number of tokens of \<open>tokenize_text\<close>: the
  tagger returns the tokens in order, each with one tag, and the histogram gives for every
  tag the number of tokens that carry it.
\<close>

theorem pos_distribution_sums_to_token_count:
  "sum_list (counter_values (calculate_pos_distribution text)) = length (tokenize_text text)
   \<and> map fst (simple_pos_tagger text) = tokenize_text text
   \<and> counter_get (calculate_pos_distribution text) tag 0
       = count_list (map snd (simple_pos_tagger text)) tag"
  by (simp add: calculate_pos_distribution_def sum_Counter counter_get_Counter)
     (simp add: simple_pos_tagger_def comp_def)

subsection \<open>Clause density\<close>

lemma startswith_iff: "startswith s p \<longleftrightarrow> (\<exists>b. s = p @ b)"
proof
  assume "startswith s p"
  then have "s = p @ drop (length p) s"
    unfolding startswith_def by (metis append_take_drop_id)
  then show "\<exists>b. s = p @ b" ..
next
  assume "\<exists>b. s = p @ b"
  then show "startswith s p" by (auto simp: startswith_def)
qed

lemma str_contains_iff: "str_contains s p \<longleftrightarrow> (\<exists>a b. s = a @ p @ b)"
proof (induction s)
  case Nil
  then show ?case by auto
next
  case (Cons c cs)
  show ?case
  proof
    assume "str_contains (c # cs) p"
    then consider "startswith (c # cs) p" | "str_contains cs p" by auto
    then show "\<exists>a b. c # cs = a @ p @ b"
    proof cases
      case 1
      then obtain b where "c # cs = p @ b" using startswith_iff by blast
      then have "c # cs = [] @ p @ b" by simp
      then show ?thesis by blast
    next
      case 2
      then obtain a b where "cs = a @ p @ b" using Cons.IH by blast
      then have "c # cs = (c # a) @ p @ b" by simp
      then show ?thesis by blast
    qed
  next
    assume "\<exists>a b. c # cs = a @ p @ b"
    then obtain a b where ab: "c # cs = a @ p @ b" by blast
    show "str_contains (c # cs) p"
    proof (cases a)
      case Nil
      with ab have "startswith (c # cs) p" using startswith_iff by auto
      then show ?thesis by simp
    next
      case (Cons x a')
      with ab have "cs = a' @ p @ b" by simp
      then have "str_contains cs p" using Cons.IH by blast
      then show ?thesis by simp
    qed
  qed
qed

lemma distinct_clause_markers: "distinct clause_markers"
  by (simp add: clause_markers_def)

lemma markers_in_sentence:
  "length (filter P clause_markers) = card {m \<in> set clause_markers. P m}"
proof -
  have "{m \<in> set clause_markers. P m} = {x. P x} \<inter> set clause_markers" by auto
  then show ?thesis
    using distinct_length_filter[OF distinct_clause_markers, of P] by simp
qed

lemma lower_substring:
  "(\<exists>a b. lower sentence = a @ marker @ b)
   = (\<exists>a w b. sentence = a @ w @ b \<and> lower w = marker)"
proof
  assume "\<exists>a b. lower sentence = a @ marker @ b"
  then obtain a b where "map lower_char sentence = a @ marker @ b"
    by (auto simp: lower_def)
  then obtain us vs where s1: "sentence = us @ vs" and a: "a = map lower_char us"
    and r: "marker @ b = map lower_char vs"
    by (auto simp: map_eq_append_conv)
  from r obtain ws xs where s2: "vs = ws @ xs" and m: "marker = map lower_char ws"
    by (auto simp: append_eq_map_conv)
  have "sentence = us @ ws @ xs \<and> lower ws = marker"
    using s1 s2 m by (simp add: lower_def)
  then show "\<exists>a w b. sentence = a @ w @ b \<and> lower w = marker" by blast
next
  assume "\<exists>a w b. sentence = a @ w @ b \<and> lower w = marker"
  then obtain a w b where "sentence = a @ w @ b" "lower w = marker" by blast
  then have "lower sentence = lower a @ marker @ lower b"
    by (auto simp: lower_def)
  then show "\<exists>a b. lower sentence = a @ marker @ b" by blast
qed

lemma lower_letters:
  "lower ascii_uppercase = ascii_lowercase \<and> lower ascii_lowercase = ascii_lowercase"
  by code_simp

text \<open>
  Claim C7. For every input text, the clause count of a sentence is 1 plus the number of
  the thirteen marker words that occur somewhere in the sentence, in any mix of upper and
  lower case, each marker counted once however often it occurs, and the clause density is
  the sum of the clause counts divided by the number of sentences. The sentence is
  lower-cased before the search, and \<open>lower\<close> takes every upper-case letter to its lower-case
  letter: a marker counts exactly when some substring of the sentence is the marker after
  lower-casing, so \<open>AND\<close> and \<open>IF\<close> count as \<open>and\<close> and \<open>if\<close>. Occurrence is occurrence
  as a substring: \<open>and\<close> twice in a sentence counts once, and \<open>as\<close> is found inside
  \<open>was\<close>.
\<close>

theorem clause_density_counts_marker_types:
  "calculate_clause_density text
     = real (sum_list (map (\<lambda>sentence.
               1 + card {marker \<in> set clause_markers.
                           \<exists>a b. lower sentence = a @ marker @ b})
             (sentence_tokenize text)))
       / real (length (sentence_tokenize text))
   \<and> set clause_markers = {''and'', ''but'', ''because'', ''if'', ''when'', ''while'', ''although'',
                            ''as'', ''since'', ''unless'', ''though'', ''whereas'', ''whether''}
   \<and> calculate_clause_density ''Cats AND dogs and birds.'' = 2
   \<and> calculate_clause_density ''He was here.'' = 2
   \<and> (\<exists>a b. lower sentence = a @ marker @ b)
       = (\<exists>a w b. sentence = a @ w @ b \<and> lower w = marker)
   \<and> lower ascii_uppercase = ascii_lowercase
   \<and> lower ascii_lowercase = ascii_lowercase
   \<and> lower ''Cats AND Dogs.'' = ''cats and dogs.''
   \<and> calculate_clause_density ''Cats AND dogs.'' = 2
   \<and> calculate_clause_density ''Cats or dogs.'' = 1
   \<and> calculate_clause_density ''IF it rains BUT not now. We stay.'' = 2"
proof -
  have a: "calculate_clause_density text
     = real (sum_list (map (\<lambda>sentence.
               1 + card {marker \<in> set clause_markers.
                           \<exists>a b. lower sentence = a @ marker @ b})
             (sentence_tokenize text)))
       / real (length (sentence_tokenize text))"
    using sentence_tokenize_nonempty[of "text"]
    by (simp add: calculate_clause_density_def Let_def markers_in_sentence str_contains_iff)
  have b: "set clause_markers = {''and'', ''but'', ''because'', ''if'', ''when'', ''while'', ''although'',
                            ''as'', ''since'', ''unless'', ''though'', ''whereas'', ''whether''}"
    by (simp add: clause_markers_def)
  have c: "calculate_clause_density ''Cats AND dogs and birds.'' = 2"
    by code_simp
  have d: "calculate_clause_density ''He was here.'' = 2"
    by code_simp
  have e: "(\<exists>a b. lower sentence = a @ marker @ b)
       = (\<exists>a w b. sentence = a @ w @ b \<and> lower w = marker)"
    by (rule lower_substring)
  have f: "lower ascii_uppercase = ascii_lowercase" "lower ascii_lowercase = ascii_lowercase"
    using lower_letters by blast+
  have g: "lower ''Cats AND Dogs.'' = ''cats and dogs.''"
    by code_simp
  have h: "calculate_clause_density ''Cats AND dogs.'' = 2"
    by code_simp
  have i: "calculate_clause_density ''Cats or dogs.'' = 1"
    by code_simp
  have j: "calculate_clause_density ''IF it rains BUT not now. We stay.'' = 2"
    by code_simp
  show ?thesis
    by (intro conjI) (rule a b c d e f g h i j)+
qed

subsection \<open>The cloze generator\<close>

lemma length_sample_loop: "length (sample_loop rng pool n i r) = r"
  by (induction r arbitrary: pool i) (auto simp: Let_def)

lemma pool_step_mset:
  assumes m: "0 < m" "m \<le> length pool" and j: "j < m"
  shows "add_mset (pool ! j) (mset (take (m - 1) (pool[j := pool ! (m - 1)])))
         = mset (take m pool)"
proof -
  let ?B = "take (m - 1) pool"
  let ?l = "pool ! (m - 1)"
  have tk: "take m pool = ?B @ [?l]"
    using m take_Suc_conv_app_nth[of "m - 1" pool] by simp
  show ?thesis
  proof (cases "j = m - 1")
    case True
    then have "pool[j := pool ! (m - 1)] = pool" by simp
    then show ?thesis using True tk by simp
  next
    case False
    then have jB: "j < length ?B" using j m by simp
    have "take (m - 1) (pool[j := ?l]) = ?B[j := ?l]"
      by (simp add: take_update_swap)
    moreover have "?B ! j = pool ! j" using jB by simp
    moreover have "pool ! j \<in># mset ?B"
      using jB nth_mem[OF jB] by simp
    ultimately show ?thesis
      using jB tk by (simp add: mset_update)
  qed
qed

lemma sample_loop_mset:
  "length pool = n \<Longrightarrow> i + r \<le> n \<Longrightarrow>
   mset (sample_loop rng pool n i r) \<subseteq># mset (take (n - i) pool)"
proof (induction r arbitrary: pool i)
  case 0
  then show ?case by simp
next
  case (Suc r)
  define j where "j = rng i mod (n - i)"
  define pool' where "pool' = pool[j := pool ! (n - i - 1)]"
  have m: "0 < n - i" "n - i \<le> length pool" using Suc.prems by auto
  have j: "j < n - i" unfolding j_def using m by simp
  have "mset (sample_loop rng pool' n (Suc i) r) \<subseteq># mset (take (n - Suc i) pool')"
    using Suc.prems by (intro Suc.IH) (auto simp: pool'_def)
  then have "add_mset (pool ! j) (mset (sample_loop rng pool' n (Suc i) r))
             \<subseteq># add_mset (pool ! j) (mset (take (n - i - 1) pool'))"
    by simp
  also have "\<dots> = mset (take (n - i) pool)"
    unfolding pool'_def by (rule pool_step_mset[OF m j])
  finally show ?case
    by (simp add: Let_def j_def pool'_def)
qed

lemma random_sample_returns:
  assumes "0 \<le> k" "k \<le> int (length population)"
  shows "\<exists>res. random_sample rng population k = Inr res \<and> length res = nat k
               \<and> mset res \<subseteq># mset population"
proof -
  have "mset (sample_loop rng population (length population) 0 (nat k))
        \<subseteq># mset (take (length population - 0) population)"
    using assms by (intro sample_loop_mset) auto
  then show ?thesis
    using assms by (simp add: random_sample_def length_sample_loop)
qed

lemma random_sample_negative: "k < 0 \<Longrightarrow> random_sample rng population k = Inl ValueError"
  by (simp add: random_sample_def)

lemma generate_cloze_test_returns:
  assumes "0 \<le> k"
  shows "\<exists>cloze blanked. generate_cloze_test rng text k = Inr (cloze, blanked)
           \<and> length blanked = min (nat k) (length (content_words text))
           \<and> mset blanked \<subseteq># mset (content_words text)
           \<and> cloze = join_space (map (\<lambda>word. if word \<in> set blanked then ''_____'' else word)
                                       (tokenize_text text))"
proof -
  define k' where "k' = (if int (length (content_words text)) < k
                         then int (length (content_words text)) else k)"
  have "0 \<le> k'" "k' \<le> int (length (content_words text))"
    using assms by (auto simp: k'_def)
  from random_sample_returns[OF this, of rng]
  obtain res where res: "random_sample rng (content_words text) k' = Inr res"
    "length res = nat k'" "mset res \<subseteq># mset (content_words text)" by blast
  have "nat k' = min (nat k) (length (content_words text))"
    using assms by (auto simp: k'_def)
  with res show ?thesis
    by (simp add: generate_cloze_test_def Let_def err_bind_def k'_def[symmetric])
qed

















text \<open>
  Claim C6 says that a negative requested blank count is clamped too. The code only clamps
  from above: a negative count reaches \<open>random.sample\<close>, which raises \<open>ValueError\<close>.
\<close>

theorem cloze_negative_count_counterexample:
  "generate_cloze_test rng_zero ''cat'' (- 1) = Inl ValueError"
  by code_simp

text \<open>
  Claim C6, amended. For every input text, when \<open>generate_cloze_test\<close> is called with a
  requested blank count of zero it returns normally, with the tokens joined by spaces and no
  blanked word; and every count that is not negative is clamped into the range from 0 to
  the number of content tokens, and the function returns normally.
\<close>

theorem cloze_nonnegative_count_clamped:
  "(0 \<le> k \<longrightarrow>
     (\<exists>cloze blanked. generate_cloze_test rng text k = Inr (cloze, blanked)
        \<and> int (length blanked) = max 0 (min k (int (length (content_words text))))
        \<and> length blanked \<le> length (content_words text)))
   \<and> generate_cloze_test rng text 0 = Inr (join_space (tokenize_text text), [])"
proof (intro conjI impI)
  assume k: "0 \<le> k"
  from generate_cloze_test_returns[OF k, of rng "text"]
  obtain cloze blanked where r: "generate_cloze_test rng text k = Inr (cloze, blanked)"
    "length blanked = min (nat k) (length (content_words text))" by blast
  have "int (length blanked) = max 0 (min k (int (length (content_words text))))"
    using k r(2) by auto
  moreover have "length blanked \<le> length (content_words text)" using r(2) by simp
  ultimately show "\<exists>cloze blanked. generate_cloze_test rng text k = Inr (cloze, blanked)
        \<and> int (length blanked) = max 0 (min k (int (length (content_words text))))
        \<and> length blanked \<le> length (content_words text)"
    using r(1) by blast
next
  have "(0::int) \<le> 0" by simp
  from generate_cloze_test_returns[OF this, of rng "text"]
  obtain cloze blanked where r: "generate_cloze_test rng text 0 = Inr (cloze, blanked)"
    "length blanked = min (nat 0) (length (content_words text))"
    "cloze = join_space (map (\<lambda>word. if word \<in> set blanked then ''_____'' else word)
                                       (tokenize_text text))" by blast
  from r(2) have "blanked = []" by simp
  with r show "generate_cloze_test rng text 0 = Inr (join_space (tokenize_text text), [])"
    by simp
qed

theorem cloze_nonnegative_count_clamped_witness:
  "(0::int) \<le> 7 \<and>
     (\<exists>cloze blanked. generate_cloze_test rng_zero ''the cat sat'' 7 = Inr (cloze, blanked)
        \<and> int (length blanked) = max 0 (min 7 (int (length (content_words ''the cat sat''))))
        \<and> length blanked \<le> length (content_words ''the cat sat''))"
  using cloze_nonnegative_count_clamped [of 7 rng_zero "''the cat sat''"] by simp

subsection \<open>The SMOG index\<close>

lemma filter_zip_map_err:
  "map_err f xs = Inr ns \<Longrightarrow>
   map fst (filter (\<lambda>(w, n). P n) (zip xs ns))
     = filter (\<lambda>w. case f w of Inl e \<Rightarrow> False | Inr n \<Rightarrow> P n) xs"
proof (induction xs arbitrary: ns)
  case Nil
  then show ?case by simp
next
  case (Cons x xs)
  then show ?case by (auto split: sum.splits)
qed

lemma smog_formula:
  "calculate_smog_index text =
     Inr (if length (sentence_tokenize text) < 30 then 0
          else py_round1 (1.0430 * sqrt (real (length (filter
                  (\<lambda>word. case count_syllables word of Inl e \<Rightarrow> False | Inr n \<Rightarrow> 3 \<le> n)
                  (tokenize_text text)))
                * (30 / real (length (sentence_tokenize text)))) + 3.1291))"
proof -
  obtain ns where ns: "map_err count_syllables (tokenize_text text) = Inr ns"
    using syllables_of_tokens by blast
  have "length (map fst (filter (\<lambda>(w, n). 3 \<le> n) (zip (tokenize_text text) ns)))
        = length (filter (\<lambda>word. case count_syllables word of Inl e \<Rightarrow> False | Inr n \<Rightarrow> 3 \<le> n)
                         (tokenize_text text))"
    by (simp only: filter_zip_map_err[OF ns])
  then show ?thesis
    using ns by (simp add: calculate_smog_index_def err_bind_def Let_def)
qed

lemma tokenize_thirty_stops: "tokenize_text thirty_stops = []"
  by code_simp

lemma sentences_thirty_stops: "length (sentence_tokenize thirty_stops) = 30"
  by code_simp

lemma round_smog_constant: "py_round1 3.1291 = 3.1"
  by (simp add: py_round1_def round_half_even_def Let_def)

lemma smog_thirty_stops: "calculate_smog_index thirty_stops = Inr 3.1"
proof -
  have "calculate_smog_index thirty_stops = Inr (py_round1 3.1291)"
    by (simp add: smog_formula tokenize_thirty_stops sentences_thirty_stops)
  then show ?thesis by (simp only: round_smog_constant)
qed

text \<open>
  Claim C4 says that \<open>calculate_smog_index\<close> returns 0 whenever the word count is 0. The
  code has one guard only, on the sentence count: a text of thirty sentences without a
  word passes it, and the formula gives 3.1291 for no polysyllable, rounded to 3.1.
\<close>

theorem smog_zero_words_counterexample:
  "length (tokenize_text thirty_stops) = 0 \<and> calculate_smog_index thirty_stops \<noteq> Inr 0"
  by (simp add: tokenize_thirty_stops smog_thirty_stops)

text \<open>
  Claim C4, amended. For every input text, \<open>calculate_smog_index\<close> returns 0 whenever
  the sentence count is below 30, whatever the word count; when the sentence count \<open>S\<close> is
  at least 30 it returns \<open>1.0430 * sqrt (P * (30 / S)) + 3.1291\<close> rounded to 1 decimal,
  where \<open>P\<close> is the number of tokens with a syllable count of at least 3, also when the
  word count is 0 (the value is then 3.1).
\<close>

theorem smog_index_formula:
  "calculate_smog_index text =
     Inr (if length (sentence_tokenize text) < 30 then 0
          else py_round1 (1.0430 * sqrt (real (length (filter
                  (\<lambda>word. case count_syllables word of Inl e \<Rightarrow> False | Inr n \<Rightarrow> 3 \<le> n)
                  (tokenize_text text)))
                * (30 / real (length (sentence_tokenize text)))) + 3.1291))
   \<and> length (sentence_tokenize thirty_stops) = 30
   \<and> length (tokenize_text thirty_stops) = 0
   \<and> calculate_smog_index thirty_stops = Inr 3.1"
  by (intro conjI) (rule smog_formula sentences_thirty_stops smog_thirty_stops
       | simp add: tokenize_thirty_stops)+

subsection \<open>The analysis function on a text with a token\<close>

lemma analyze_vocabulary_result:
  assumes ne: "tokenize_text text \<noteq> []"
  shows "\<exists>fk fre fog smog ttr cloze blanked.
           calculate_flesch_kincaid_grade text = Inr fk
         \<and> calculate_flesch_reading_ease text = Inr fre
         \<and> calculate_gunning_fog_index text = Inr fog
         \<and> calculate_smog_index text = Inr smog
         \<and> calculate_ttr text = Inr ttr
         \<and> generate_cloze_test rng text 5 = Inr (cloze, blanked)
         \<and> analyze_vocabulary rng text = Inr
             \<lparr> overall_level = level_of_score
                 ((fk / 12 + (100 - fre) / 100 + fog / 18 + smog / 18) / 4 * 0.4
                  + (1 - ttr) * 0.2
                  + min (calculate_avg_sentence_length text / 20) 1 * 0.2
                  + min (calculate_clause_density text / 3) 1 * 0.1
                  + real (counter_get (calculate_pos_distribution text) ''VB'' 0)
                    / real (length (tokenize_text text)) * 0.05
                  + real (counter_get (calculate_pos_distribution text) ''JJ'' 0)
                    / real (length (tokenize_text text)) * 0.05),
               flesch_kincaid_grade = fk,
               flesch_reading_ease = fre,
               gunning_fog_index = fog,
               smog_index = smog,
               type_token_ratio = ttr,
               mtld = calculate_mtld text 0.72,
               avg_sentence_length = calculate_avg_sentence_length text,
               clause_density = calculate_clause_density text,
               pos_distribution = calculate_pos_distribution text,
               top_bigrams = most_common 10 (calculate_ngram_frequency text 2),
               cloze_test = cloze,
               blanked_words = blanked,
               complexity_score =
                 (fk / 12 + (100 - fre) / 100 + fog / 18 + smog / 18) / 4 * 0.4
                  + (1 - ttr) * 0.2
                  + min (calculate_avg_sentence_length text / 20) 1 * 0.2
                  + min (calculate_clause_density text / 3) 1 * 0.1
                  + real (counter_get (calculate_pos_distribution text) ''VB'' 0)
                    / real (length (tokenize_text text)) * 0.05
                  + real (counter_get (calculate_pos_distribution text) ''JJ'' 0)
                    / real (length (tokenize_text text)) * 0.05 \<rparr>"
proof -
  obtain ns where ns: "map_err count_syllables (tokenize_text text) = Inr ns"
    using syllables_of_tokens by blast
  from readability_guard[OF ns]
  obtain fk fre fog where r: "calculate_flesch_kincaid_grade text = Inr fk"
    "calculate_flesch_reading_ease text = Inr fre"
    "calculate_gunning_fog_index text = Inr fog" by blast
  obtain smog where s: "calculate_smog_index text = Inr smog"
    using smog_formula by blast
  obtain ttr where t: "calculate_ttr text = Inr ttr"
    using ne by (simp add: calculate_ttr_def Let_def)
  have "(0::int) \<le> 5" by simp
  from generate_cloze_test_returns[OF this, of rng "text"]
  obtain cloze blanked where c: "generate_cloze_test rng text 5 = Inr (cloze, blanked)"
    by blast
  have d: "real (length (tokenize_text text)) \<noteq> 0" using ne by simp
  show ?thesis
    apply (rule exI[of _ fk], rule exI[of _ fre], rule exI[of _ fog], rule exI[of _ smog],
           rule exI[of _ ttr], rule exI[of _ cloze], rule exI[of _ blanked])
    using r s t c d
    by (simp add: analyze_vocabulary_def err_bind_def py_div_def Let_def)
qed

lemma analyze_vocabulary_returns:
  assumes ne: "tokenize_text text \<noteq> []"
  shows "\<exists>r. analyze_vocabulary rng text = Inr r
           \<and> overall_level r = level_of_score (complexity_score r)
           \<and> calculate_flesch_kincaid_grade text = Inr (flesch_kincaid_grade r)
           \<and> calculate_flesch_reading_ease text = Inr (flesch_reading_ease r)
           \<and> calculate_gunning_fog_index text = Inr (gunning_fog_index r)
           \<and> calculate_smog_index text = Inr (smog_index r)
           \<and> calculate_ttr text = Inr (type_token_ratio r)
           \<and> avg_sentence_length r = calculate_avg_sentence_length text
           \<and> clause_density r = calculate_clause_density text
           \<and> pos_distribution r = calculate_pos_distribution text
           \<and> complexity_score r =
                 (flesch_kincaid_grade r / 12 + (100 - flesch_reading_ease r) / 100
                    + gunning_fog_index r / 18 + smog_index r / 18) / 4 * 0.4
                  + (1 - type_token_ratio r) * 0.2
                  + min (avg_sentence_length r / 20) 1 * 0.2
                  + min (clause_density r / 3) 1 * 0.1
                  + real (counter_get (pos_distribution r) ''VB'' 0)
                    / real (length (tokenize_text text)) * 0.05
                  + real (counter_get (pos_distribution r) ''JJ'' 0)
                    / real (length (tokenize_text text)) * 0.05"
proof -
  from analyze_vocabulary_result[OF ne, of rng]
  obtain fk fre fog smog ttr cloze blanked r where
    c: "calculate_flesch_kincaid_grade text = Inr fk"
       "calculate_flesch_reading_ease text = Inr fre"
       "calculate_gunning_fog_index text = Inr fog"
       "calculate_smog_index text = Inr smog"
       "calculate_ttr text = Inr ttr"
    and a: "analyze_vocabulary rng text = Inr r"
    and r: "r = \<lparr> overall_level = level_of_score
                 ((fk / 12 + (100 - fre) / 100 + fog / 18 + smog / 18) / 4 * 0.4
                  + (1 - ttr) * 0.2
                  + min (calculate_avg_sentence_length text / 20) 1 * 0.2
                  + min (calculate_clause_density text / 3) 1 * 0.1
                  + real (counter_get (calculate_pos_distribution text) ''VB'' 0)
                    / real (length (tokenize_text text)) * 0.05
                  + real (counter_get (calculate_pos_distribution text) ''JJ'' 0)
                    / real (length (tokenize_text text)) * 0.05),
               flesch_kincaid_grade = fk,
               flesch_reading_ease = fre,
               gunning_fog_index = fog,
               smog_index = smog,
               type_token_ratio = ttr,
               mtld = calculate_mtld text 0.72,
               avg_sentence_length = calculate_avg_sentence_length text,
               clause_density = calculate_clause_density text,
               pos_distribution = calculate_pos_distribution text,
               top_bigrams = most_common 10 (calculate_ngram_frequency text 2),
               cloze_test = cloze,
               blanked_words = blanked,
               complexity_score =
                 (fk / 12 + (100 - fre) / 100 + fog / 18 + smog / 18) / 4 * 0.4
                  + (1 - ttr) * 0.2
                  + min (calculate_avg_sentence_length text / 20) 1 * 0.2
                  + min (calculate_clause_density text / 3) 1 * 0.1
                  + real (counter_get (calculate_pos_distribution text) ''VB'' 0)
                    / real (length (tokenize_text text)) * 0.05
                  + real (counter_get (calculate_pos_distribution text) ''JJ'' 0)
                    / real (length (tokenize_text text)) * 0.05 \<rparr>"
    by blast
  show ?thesis
    apply (rule exI[of _ r])
    unfolding a c
    by (simp add: r)
qed

lemma tokenize_it_is: "tokenize_text ''it is'' \<noteq> []"
  by code_simp

lemma analyze_vocabulary_no_token:
  "tokenize_text text = [] \<Longrightarrow> analyze_vocabulary rng text = Inl ZeroDivisionError"
proof -
  assume t: "tokenize_text text = []"
  obtain ns where ns: "map_err count_syllables (tokenize_text text) = Inr ns"
    using syllables_of_tokens by blast
  note rg = readability_guard[OF ns]
  obtain smog where s: "calculate_smog_index text = Inr smog"
    using smog_formula by blast
  have ttr: "calculate_ttr text = Inl ZeroDivisionError"
    using t by (simp add: calculate_ttr_def)
  show ?thesis
    unfolding analyze_vocabulary_def rg s ttr by (simp add: err_bind_def)
qed

lemma tokenize_marks: "tokenize_text ''?!'' = []"
  by code_simp

text \<open>
  Claim C8 says that the JJ term of the complexity score is 0 on all inputs and that the
  score is the formula without it. On a text without a token there is no score: the JJ term
  divides the JJ count by the number of tokens, which is 0, and \<open>analyze_vocabulary\<close>
  raises.
\<close>

theorem complexity_score_no_token_counterexample:
  "tokenize_text ''?!'' = []
   \<and> py_div (real (counter_get (calculate_pos_distribution ''?!'') ''JJ'' 0))
             (real (length (tokenize_text ''?!''))) = Inl ZeroDivisionError
   \<and> analyze_vocabulary rng_zero ''?!'' = Inl ZeroDivisionError"
  using analyze_vocabulary_no_token[OF tokenize_marks, of rng_zero]
  by (simp add: tokenize_marks py_div_def)

text \<open>
  Claim C8, amended. For every input text the tagger never gives the tag JJ, so JJ has no
  entry in the histogram and its count is 0; and for every input text with at least one
  token \<open>analyze_vocabulary\<close> returns, the JJ term of the complexity score is 0, and the
  complexity score is the weighted sum of the other five terms.
\<close>

theorem tagger_never_emits_JJ:
  "pos_tag word \<noteq> ''JJ''
   \<and> ''JJ'' \<notin> snd ` set (simple_pos_tagger text)
   \<and> counter_get (calculate_pos_distribution text) ''JJ'' 0 = 0
   \<and> (tokenize_text text \<noteq> [] \<longrightarrow>
        (\<exists>r. analyze_vocabulary rng text = Inr r
           \<and> calculate_flesch_kincaid_grade text = Inr (flesch_kincaid_grade r)
           \<and> calculate_flesch_reading_ease text = Inr (flesch_reading_ease r)
           \<and> calculate_gunning_fog_index text = Inr (gunning_fog_index r)
           \<and> calculate_smog_index text = Inr (smog_index r)
           \<and> calculate_ttr text = Inr (type_token_ratio r)
           \<and> avg_sentence_length r = calculate_avg_sentence_length text
           \<and> clause_density r = calculate_clause_density text
           \<and> pos_distribution r = calculate_pos_distribution text
           \<and> real (counter_get (pos_distribution r) ''JJ'' 0)
                / real (length (tokenize_text text)) * 0.05 = 0
           \<and> complexity_score r =
                 (flesch_kincaid_grade r / 12 + (100 - flesch_reading_ease r) / 100
                    + gunning_fog_index r / 18 + smog_index r / 18) / 4 * 0.4
                  + (1 - type_token_ratio r) * 0.2
                  + min (avg_sentence_length r / 20) 1 * 0.2
                  + min (clause_density r / 3) 1 * 0.1
                  + real (counter_get (pos_distribution r) ''VB'' 0)
                    / real (length (tokenize_text text)) * 0.05))"
proof (intro conjI impI)
  show "pos_tag word \<noteq> ''JJ''" by (rule pos_tag_not_JJ)
  show "''JJ'' \<notin> snd ` set (simple_pos_tagger text)"
  proof
    assume "''JJ'' \<in> snd ` set (simple_pos_tagger text)"
    then obtain w where "pos_tag w = ''JJ''" by (auto simp: simple_pos_tagger_def)
    then show False using pos_tag_not_JJ by blast
  qed
  show "counter_get (calculate_pos_distribution text) ''JJ'' 0 = 0" by (rule JJ_count_zero)
next
  assume ne: "tokenize_text text \<noteq> []"
  from analyze_vocabulary_returns[OF ne, of rng]
  obtain r where r: "analyze_vocabulary rng text = Inr r"
           "calculate_flesch_kincaid_grade text = Inr (flesch_kincaid_grade r)"
           "calculate_flesch_reading_ease text = Inr (flesch_reading_ease r)"
           "calculate_gunning_fog_index text = Inr (gunning_fog_index r)"
           "calculate_smog_index text = Inr (smog_index r)"
           "calculate_ttr text = Inr (type_token_ratio r)"
           "avg_sentence_length r = calculate_avg_sentence_length text"
           "clause_density r = calculate_clause_density text"
           "pos_distribution r = calculate_pos_distribution text"
     and s: "complexity_score r =
                 (flesch_kincaid_grade r / 12 + (100 - flesch_reading_ease r) / 100
                    + gunning_fog_index r / 18 + smog_index r / 18) / 4 * 0.4
                  + (1 - type_token_ratio r) * 0.2
                  + min (avg_sentence_length r / 20) 1 * 0.2
                  + min (clause_density r / 3) 1 * 0.1
                  + real (counter_get (pos_distribution r) ''VB'' 0)
                    / real (length (tokenize_text text)) * 0.05
                  + real (counter_get (pos_distribution r) ''JJ'' 0)
                    / real (length (tokenize_text text)) * 0.05"
    by blast
  have jj: "counter_get (pos_distribution r) ''JJ'' 0 = 0"
    unfolding r(9) by (rule JJ_count_zero)
  have z: "real (counter_get (pos_distribution r) ''JJ'' 0)
                / real (length (tokenize_text text)) * 0.05 = 0"
    by (simp add: jj)
  have s': "complexity_score r =
                 (flesch_kincaid_grade r / 12 + (100 - flesch_reading_ease r) / 100
                    + gunning_fog_index r / 18 + smog_index r / 18) / 4 * 0.4
                  + (1 - type_token_ratio r) * 0.2
                  + min (avg_sentence_length r / 20) 1 * 0.2
                  + min (clause_density r / 3) 1 * 0.1
                  + real (counter_get (pos_distribution r) ''VB'' 0)
                    / real (length (tokenize_text text)) * 0.05"
    using s z by linarith
  show "\<exists>r. analyze_vocabulary rng text = Inr r
           \<and> calculate_flesch_kincaid_grade text = Inr (flesch_kincaid_grade r)
           \<and> calculate_flesch_reading_ease text = Inr (flesch_reading_ease r)
           \<and> calculate_gunning_fog_index text = Inr (gunning_fog_index r)
           \<and> calculate_smog_index text = Inr (smog_index r)
           \<and> calculate_ttr text = Inr (type_token_ratio r)
           \<and> avg_sentence_length r = calculate_avg_sentence_length text
           \<and> clause_density r = calculate_clause_density text
           \<and> pos_distribution r = calculate_pos_distribution text
           \<and> real (counter_get (pos_distribution r) ''JJ'' 0)
                / real (length (tokenize_text text)) * 0.05 = 0
           \<and> complexity_score r =
                 (flesch_kincaid_grade r / 12 + (100 - flesch_reading_ease r) / 100
                    + gunning_fog_index r / 18 + smog_index r / 18) / 4 * 0.4
                  + (1 - type_token_ratio r) * 0.2
                  + min (avg_sentence_length r / 20) 1 * 0.2
                  + min (clause_density r / 3) 1 * 0.1
                  + real (counter_get (pos_distribution r) ''VB'' 0)
                    / real (length (tokenize_text text)) * 0.05"
    by (rule exI[of _ r], intro conjI) (rule r z s')+
qed

theorem tagger_never_emits_JJ_witness:
  "tokenize_text ''it is'' \<noteq> []
   \<and> (\<exists>r. analyze_vocabulary rng_zero ''it is'' = Inr r
        \<and> real (counter_get (pos_distribution r) ''JJ'' 0)
             / real (length (tokenize_text ''it is'')) * 0.05 = 0
        \<and> complexity_score r =
                 (flesch_kincaid_grade r / 12 + (100 - flesch_reading_ease r) / 100
                    + gunning_fog_index r / 18 + smog_index r / 18) / 4 * 0.4
                  + (1 - type_token_ratio r) * 0.2
                  + min (avg_sentence_length r / 20) 1 * 0.2
                  + min (clause_density r / 3) 1 * 0.1
                  + real (counter_get (pos_distribution r) ''VB'' 0)
                    / real (length (tokenize_text ''it is'')) * 0.05)"
  using tagger_never_emits_JJ [of _ "''it is''" rng_zero] tokenize_it_is
  by blast

subsection \<open>The level classifier\<close>

lemma tokenize_the_cat: "tokenize_text ''The cat sat.'' \<noteq> []"
  by code_simp

text \<open>
  Claim C5. The classifier maps the complexity score to a level by half-open intervals
  that neither overlap nor leave a gap: A1 exactly below 0.35, A2 exactly from 0.35 to below
  0.55, B1 exactly from 0.55 to below 0.75, B2 exactly from 0.75 on; in particular 0.34
  gives A1, 0.35 gives A2, 0.55 gives B1 and 0.75 gives B2. The level of an analysis result
  is the classifier's level of its complexity score.
\<close>

theorem level_classifier_intervals:
  "(level_of_score s = ''A1'') = (s < 0.35)
   \<and> (level_of_score s = ''A2'') = (0.35 \<le> s \<and> s < 0.55)
   \<and> (level_of_score s = ''B1'') = (0.55 \<le> s \<and> s < 0.75)
   \<and> (level_of_score s = ''B2'') = (0.75 \<le> s)
   \<and> level_of_score 0.34 = ''A1'' \<and> level_of_score 0.35 = ''A2''
   \<and> level_of_score 0.55 = ''B1'' \<and> level_of_score 0.75 = ''B2''
   \<and> (tokenize_text text \<noteq> [] \<longrightarrow>
        (\<exists>r. analyze_vocabulary rng text = Inr r
            \<and> overall_level r = level_of_score (complexity_score r)))"
proof -
  have a: "(level_of_score s = ''A1'') = (s < 0.35)
   \<and> (level_of_score s = ''A2'') = (0.35 \<le> s \<and> s < 0.55)
   \<and> (level_of_score s = ''B1'') = (0.55 \<le> s \<and> s < 0.75)
   \<and> (level_of_score s = ''B2'') = (0.75 \<le> s)
   \<and> level_of_score 0.34 = ''A1'' \<and> level_of_score 0.35 = ''A2''
   \<and> level_of_score 0.55 = ''B1'' \<and> level_of_score 0.75 = ''B2''"
    by (simp add: level_of_score_def)
  have b: "tokenize_text text \<noteq> [] \<longrightarrow>
        (\<exists>r. analyze_vocabulary rng text = Inr r
            \<and> overall_level r = level_of_score (complexity_score r))"
    using analyze_vocabulary_returns[of "text" rng] by blast
  from a b show ?thesis by (simp only: simp_thms)
qed

theorem level_classifier_intervals_witness:
  "tokenize_text ''The cat sat.'' \<noteq> []
   \<and> (\<exists>r. analyze_vocabulary rng_zero ''The cat sat.'' = Inr r
        \<and> overall_level r = level_of_score (complexity_score r))"
  using level_classifier_intervals [of _ "''The cat sat.''" rng_zero]
        tokenize_the_cat
  by blast

end
